theory Spec2Isabelle
  imports Complex_Main "HOL-Library.Word"
begin

unbundle bit_operations_syntax

section \<open>Bytes, exceptions and the \<open>struct\<close> codec\<close>

type_synonym byte = "8 word"
type_synonym bytes = "byte list"

text \<open>
  The exceptions the two modules can raise. \<open>RuntimeError_unsupported_codec\<close> is the
  \<open>RuntimeError("Unsupported codec id: ...")\<close> of \<open>_init_decoder\<close>; it carries the raw
  codec identifier of its message. \<open>InvalidDataError\<close> is an exception of the decoding
  library (\<open>av.error.InvalidDataError\<close>).
\<close>

datatype error =
    EOFError
  | UnicodeDecodeError
  | UnicodeEncodeError
  | StructError
  | RuntimeError_unsupported_codec nat
  | CalledProcessError
  | InvalidDataError

text \<open>Big-endian integers of a fixed number of bytes, as \<open>struct\<close> lays them out.\<close>

fun to_be :: "nat \<Rightarrow> nat \<Rightarrow> bytes" where
  "to_be 0 v = []"
| "to_be (Suc k) v = to_be k (v div 256) @ [of_nat (v mod 256)]"

definition from_be :: "bytes \<Rightarrow> nat" where
  "from_be bs = foldl (\<lambda>a b. 256 * a + unat b) 0 bs"

text \<open>
  The format characters used in the source: \<open>B\<close>, \<open>H\<close>, \<open>I\<close>, \<open>Q\<close> (unsigned, 1, 2, 4
  and 8 bytes) and \<open>i\<close> (signed, 4 bytes). Every format string starts with \<open>>\<close>:
  big-endian, no padding.
\<close>

datatype fmt = Fmt_B | Fmt_H | Fmt_I | Fmt_Q | Fmt_i

fun fmt_size :: "fmt \<Rightarrow> nat" where
  "fmt_size Fmt_B = 1"
| "fmt_size Fmt_H = 2"
| "fmt_size Fmt_I = 4"
| "fmt_size Fmt_Q = 8"
| "fmt_size Fmt_i = 4"

text \<open>\<open>struct.pack\<close> raises \<open>struct.error\<close> on a value outside the range of its field.\<close>

fun pack_field :: "fmt \<Rightarrow> int \<Rightarrow> error + bytes" where
  "pack_field Fmt_i v =
     (if - (2 ^ 31) \<le> v \<and> v < 2 ^ 31 then Inr (to_be 4 (nat (v mod 2 ^ 32)))
      else Inl StructError)"
| "pack_field f v =
     (if 0 \<le> v \<and> v < 256 ^ fmt_size f then Inr (to_be (fmt_size f) (nat v))
      else Inl StructError)"

fun struct_pack :: "fmt list \<Rightarrow> int list \<Rightarrow> error + bytes" where
  "struct_pack [] [] = Inr []"
| "struct_pack (f # fs) (v # vs) =
     (case pack_field f v of
        Inl e \<Rightarrow> Inl e
      | Inr b \<Rightarrow> (case struct_pack fs vs of Inl e \<Rightarrow> Inl e | Inr bs \<Rightarrow> Inr (b @ bs)))"
| "struct_pack _ _ = Inl StructError"

text \<open>
  \<open>struct.unpack\<close> for the formats the source reads, all unsigned. It raises
  \<open>struct.error\<close> unless the buffer has exactly the size of the format.
\<close>

definition unpack_I :: "bytes \<Rightarrow> error + nat" where
  "unpack_I bs = (if length bs = 4 then Inr (from_be bs) else Inl StructError)"

definition unpack_II :: "bytes \<Rightarrow> error + nat \<times> nat" where
  "unpack_II bs =
     (if length bs = 8 then Inr (from_be (take 4 bs), from_be (drop 4 bs))
      else Inl StructError)"

definition unpack_QI :: "bytes \<Rightarrow> error + nat \<times> nat" where
  "unpack_QI bs =
     (if length bs = 12 then Inr (from_be (take 8 bs), from_be (drop 8 bs))
      else Inl StructError)"

definition unpack_HH :: "bytes \<Rightarrow> error + nat \<times> nat" where
  "unpack_HH bs =
     (if length bs = 4 then Inr (from_be (take 2 bs), from_be (drop 2 bs))
      else Inl StructError)"

section \<open>The byte-stream connection\<close>

text \<open>
  What a blocking socket will deliver: the segments in which the peer's bytes arrive,
  oldest first; after the last one the peer has closed. \<open>recv n\<close> returns at most \<open>n\<close>
  bytes of the segment at the front, and the empty byte string only once the peer has
  closed (or when \<open>n = 0\<close>).
\<close>

type_synonym stream = "bytes list"

fun recv :: "nat \<Rightarrow> stream \<Rightarrow> bytes \<times> stream" where
  "recv n [] = ([], [])"
| "recv n (seg # rest) =
     (if seg = [] then recv n rest
      else (take n seg, if drop n seg = [] then rest else drop n seg # rest))"

text \<open>\<open>read_exact\<close>: the loop, with the buffer as accumulator.\<close>

function read_exact_loop :: "stream \<Rightarrow> nat \<Rightarrow> bytes \<Rightarrow> error + bytes \<times> stream" where
  "read_exact_loop sock len buf =
     (if length buf < len then
        (case recv (len - length buf) sock of
           (chunk, sock') \<Rightarrow>
             if chunk = [] then Inl EOFError
             else read_exact_loop sock' len (buf @ chunk))
      else Inr (buf, sock))"
  by pat_completeness auto
termination
proof (relation "measure (\<lambda>(sock, len, buf). len - length buf)")
  fix sock :: stream and len :: nat and buf x :: bytes and y :: stream
  assume "length buf < len" and "x \<noteq> []"
  then have "0 < length x" by simp
  with \<open>length buf < len\<close> have "len - (length buf + length x) < len - length buf"
    by arith
  then show "((y, len, buf @ x), (sock, len, buf)) \<in> measure (\<lambda>(sock, len, buf). len - length buf)"
    by simp
qed simp

definition read_exact :: "stream \<Rightarrow> nat \<Rightarrow> error + bytes \<times> stream" where
  "read_exact sock len = read_exact_loop sock len []"

text \<open>The bytes still to be delivered, and how \<open>recv\<close> and \<open>read_exact\<close> use them up.\<close>

definition pending :: "stream \<Rightarrow> nat" where
  "pending sock = length (concat sock)"

lemma recv_concat: "fst (recv n sock) @ concat (snd (recv n sock)) = concat sock"
  by (induction sock) (auto simp: append_eq_conv_conj)

lemma recv_length: "length (fst (recv n sock)) \<le> n"
  by (induction sock) auto

lemma recv_empty_iff: "fst (recv n sock) = [] \<longleftrightarrow> n = 0 \<or> concat sock = []"
  by (induction sock) auto

lemma recv_pending: "recv n sock = (chunk, sock') \<Longrightarrow> pending sock = length chunk + pending sock'"
  using recv_concat [of n sock] by (simp add: pending_def flip: length_append)

lemma read_exact_loop_concat:
  "length buf \<le> len \<Longrightarrow>
   map_sum id (\<lambda>(b, s). (b, concat s)) (read_exact_loop sock len buf) =
     (if len - length buf \<le> length (concat sock)
      then Inr (buf @ take (len - length buf) (concat sock), drop (len - length buf) (concat sock))
      else Inl EOFError)"
proof (induction sock len buf rule: read_exact_loop.induct)
  case (1 sock len buf)
  show ?case
  proof (cases "length buf < len")
    case False
    with 1(2) show ?thesis by simp
  next
    case True
    obtain chunk sock' where r: "recv (len - length buf) sock = (chunk, sock')"
      by (cases "recv (len - length buf) sock")
    have cat: "concat sock = chunk @ concat sock'"
      using recv_concat [of "len - length buf" sock] r by simp
    have le: "length chunk \<le> len - length buf"
      using recv_length [of "len - length buf" sock] r by simp
    show ?thesis
    proof (cases "chunk = []")
      case True
      then have "concat sock = []"
        using recv_empty_iff [of "len - length buf" sock] r \<open>length buf < len\<close> by simp
      then have "length (concat sock) = 0"
        by (simp only: list.size)
      with \<open>length buf < len\<close> have short: "\<not> len - length buf \<le> length (concat sock)"
        by arith
      have "read_exact_loop sock len buf = Inl EOFError"
        using True r \<open>length buf < len\<close> by simp
      then show ?thesis
        by (simp only: short if_False map_sum.simps id_apply)
    next
      case False
      from le \<open>length buf < len\<close> have le': "length (buf @ chunk) \<le> len" by simp
      have IH: "map_sum id (\<lambda>(b, s). (b, concat s)) (read_exact_loop sock' len (buf @ chunk)) =
        (if len - length (buf @ chunk) \<le> length (concat sock')
         then Inr ((buf @ chunk) @ take (len - length (buf @ chunk)) (concat sock'),
                   drop (len - length (buf @ chunk)) (concat sock'))
         else Inl EOFError)"
        using 1(1) [OF True r [symmetric] False le'] .
      have unf: "read_exact_loop sock len buf = read_exact_loop sock' len (buf @ chunk)"
        using True r False by simp
      show ?thesis
        unfolding unf IH cat using le \<open>length buf < len\<close>
        by auto
    qed
  qed
qed

lemma read_exact_concat:
  "map_sum id (\<lambda>(b, s). (b, concat s)) (read_exact sock n) =
     (if n \<le> length (concat sock) then Inr (take n (concat sock), drop n (concat sock))
      else Inl EOFError)"
  using read_exact_loop_concat [of "[]" n sock] by (simp add: read_exact_def)

lemma read_exact_short: "length (concat sock) < n \<Longrightarrow> read_exact sock n = Inl EOFError"
  using read_exact_concat [of sock n] by (cases "read_exact sock n") auto

lemma read_exact_enough:
  assumes "n \<le> length (concat sock)"
  obtains sock' where "read_exact sock n = Inr (take n (concat sock), sock')"
    and "concat sock' = drop n (concat sock)"
  using read_exact_concat [of sock n] assms by (cases "read_exact sock n") auto

lemma read_exact_InrD:
  assumes "read_exact sock n = Inr (b, sock')"
  shows "length b = n" and "concat sock = b @ concat sock'"
proof -
  from assms read_exact_concat [of sock n]
  have *: "n \<le> length (concat sock)" "b = take n (concat sock)" "concat sock' = drop n (concat sock)"
    by (auto split: if_splits)
  then show "length b = n" by simp
  from * show "concat sock = b @ concat sock'" by simp
qed

lemma read_exact_pending:
  "read_exact sock n = Inr (b, sock') \<Longrightarrow> pending sock = n + pending sock'"
  using read_exact_InrD [of sock n b sock'] by (simp add: pending_def)

section \<open>The video client (\<open>scrcpy_python_client.py\<close>)\<close>

definition CODECS :: "nat \<Rightarrow> string option" where
  "CODECS = map_of [(0x68323634, ''h264''), (0x68323635, ''hevc''), (0x00617631, ''av1'')]"

definition HEADER_SIZE :: nat where
  "HEADER_SIZE = 12"

definition FLAG_CONFIG :: nat where
  "FLAG_CONFIG = push_bit 63 1"

definition FLAG_KEY_FRAME :: nat where
  "FLAG_KEY_FRAME = push_bit 62 1"

definition PTS_MASK :: nat where
  "PTS_MASK = FLAG_KEY_FRAME - 1"

text \<open>
  \<open>bytes.decode("utf-8")\<close>, strict: the well-formed byte sequences of UTF-8 (no overlong
  forms, no surrogates, nothing above U+10FFFF); a \<open>str\<close> is its list of code points.
  \<open>utf8_width\<close> is the length of the sequence a lead byte opens (0: not a lead byte),
  \<open>utf8_scalar\<close> the code point of a lead byte and its continuation bytes.
\<close>

definition utf8_width :: "nat \<Rightarrow> nat" where
  "utf8_width a =
     (if a < 0x80 then 1
      else if 0xC2 \<le> a \<and> a \<le> 0xDF then 2
      else if 0xE0 \<le> a \<and> a \<le> 0xEF then 3
      else if 0xF0 \<le> a \<and> a \<le> 0xF4 then 4
      else 0)"

definition utf8_scalar :: "nat \<Rightarrow> nat list \<Rightarrow> nat option" where
  "utf8_scalar a cs =
     (if \<not> list_all (\<lambda>c. 0x80 \<le> c \<and> c \<le> 0xBF) cs then None
      else if a = 0xE0 \<and> list_ex (\<lambda>c. c < 0xA0) (take 1 cs) then None
      else if a = 0xED \<and> list_ex (\<lambda>c. 0x9F < c) (take 1 cs) then None
      else if a = 0xF0 \<and> list_ex (\<lambda>c. c < 0x90) (take 1 cs) then None
      else if a = 0xF4 \<and> list_ex (\<lambda>c. 0x8F < c) (take 1 cs) then None
      else Some (foldl (\<lambda>v c. v * 64 + (c - 0x80))
                   (if a < 0x80 then a else if a < 0xE0 then a - 0xC0
                    else if a < 0xF0 then a - 0xE0 else a - 0xF0) cs))"

function utf8_decode :: "bytes \<Rightarrow> error + nat list" where
  "utf8_decode [] = Inr []"
| "utf8_decode (b0 # rest) =
     (let n = utf8_width (unat b0) in
      if n = 0 \<or> length rest < n - 1 then Inl UnicodeDecodeError
      else
        (case utf8_scalar (unat b0) (map unat (take (n - 1) rest)) of
           None \<Rightarrow> Inl UnicodeDecodeError
         | Some cp \<Rightarrow> map_sum id (Cons cp) (utf8_decode (drop (n - 1) rest))))"
  by pat_completeness auto
termination
  by (relation "measure length") auto

declare utf8_decode.simps [simp del]

text \<open>
  A packet as \<open>_video_loop\<close> hands it to the decoder: \<open>av.Packet(packet_data)\<close> with its
  \<open>pts\<close> and \<open>is_keyframe\<close> attributes (\<open>False\<close> on a new packet). \<open>is_keyframe\<close> is
  the value the loop assigns; where the library refuses the assignment, the loop drops the
  \<open>AttributeError\<close> and goes on.
\<close>

record video_packet =
  payload :: bytes
  pts :: nat
  is_keyframe :: bool

text \<open>
  The decoder is a collaborator of the loop: a parameter. \<open>decode decoder packet\<close> stands
  for the lines
  \<^verbatim>\<open>for decoded_frame in decoder.decode(packet):\<close>
  \<^verbatim>\<open>    img = decoded_frame.to_ndarray(format="rgb24")\<close>
  \<^verbatim>\<open>    self.state.last_frame = img\<close>
  and gives the decoder as these lines leave it (with the last frame), or the exception
  that \<open>decode\<close> or \<open>to_ndarray\<close> raises. The loop has no handler for it.

  The \<open>while True\<close> loop of \<open>_video_loop\<close>, from the decoder, the socket and
  \<open>config_data\<close>. It has no \<open>break\<close> and no \<open>return\<close>: it ends with the exception that
  leaves it, of a read or of the decoder. The result is the packets handed to the decoder,
  in order (the last one is the packet the decoder raised on, if it did), and that
  exception.
\<close>

function video_loop_while ::
  "('d \<Rightarrow> video_packet \<Rightarrow> error + 'd) \<Rightarrow> 'd \<Rightarrow> stream \<Rightarrow> bytes \<Rightarrow> video_packet list \<times> error" where
  "video_loop_while decode decoder sock config_data =
     (case read_exact sock HEADER_SIZE of
        Inl e \<Rightarrow> ([], e)
      | Inr (header, sock1) \<Rightarrow>
          (case unpack_QI header of
             Inl e \<Rightarrow> ([], e)
           | Inr (pts_flags, size') \<Rightarrow>
               (case read_exact sock1 size' of
                  Inl e \<Rightarrow> ([], e)
                | Inr (packet_data, sock2) \<Rightarrow>
                    if pts_flags AND FLAG_CONFIG \<noteq> 0
                    then video_loop_while decode decoder sock2 packet_data
                    else
                      (let packet_data' =
                             (if config_data \<noteq> [] then config_data @ packet_data else packet_data);
                           config_data' = (if config_data \<noteq> [] then [] else config_data);
                           packet = \<lparr>payload = packet_data', pts = pts_flags AND PTS_MASK,
                                     is_keyframe = (pts_flags AND FLAG_KEY_FRAME \<noteq> 0)\<rparr>
                       in case decode decoder packet of
                            Inl e \<Rightarrow> ([packet], e)
                          | Inr decoder' \<Rightarrow>
                              (case video_loop_while decode decoder' sock2 config_data' of
                                 (packets, e) \<Rightarrow> (packet # packets, e))))))"
  by pat_completeness auto
termination
  apply (relation "measure (\<lambda>(decode, decoder, sock, config_data). pending sock)")
   apply (auto simp: HEADER_SIZE_def dest!: read_exact_pending)
  done

declare video_loop_while.simps [simp del]

text \<open>
  A packet as the server puts it on the wire, the layout \<open>_video_loop\<close> parses: the
  8-byte word of flags and timestamp, the 4-byte length of the payload, the payload.
\<close>

definition packet_bytes :: "nat \<Rightarrow> bytes \<Rightarrow> bytes" where
  "packet_bytes pts_flags data = to_be 8 pts_flags @ to_be 4 (length data) @ data"

text \<open>
  \<open>ClientState\<close>, with what \<open>_stop_server\<close> acts on: the server process (\<open>Some True\<close>
  while it runs, \<open>Some False\<close> once terminated and waited for), whether the adb server
  still lists the forward of the port, and the external commands run so far.
\<close>

datatype command = Terminate | Wait | Adb_forward_remove

record client =
  state_proc :: "bool option"
  state_resolution :: "(nat \<times> nat) option"
  state_device_name :: "nat list option"
  forwarded :: bool
  commands :: "command list"

text \<open>
  \<open>_stop_server\<close>. \<open>subprocess.run(..., check=True)\<close> raises \<open>CalledProcessError\<close> when
  the command exits with a status other than 0, as \<open>adb forward --remove\<close> does for a
  forward that is not listed.
\<close>

definition stop_server :: "client \<Rightarrow> (error + unit) \<times> client" where
  "stop_server c =
     (let c1 = (case state_proc c of
                  None \<Rightarrow> c
                | Some running \<Rightarrow>
                    c\<lparr>state_proc := Some False, commands := commands c @ [Terminate, Wait]\<rparr>);
          c2 = c1\<lparr>commands := commands c1 @ [Adb_forward_remove]\<rparr>
      in if forwarded c2 then (Inr (), c2\<lparr>forwarded := False\<rparr>)
         else (Inl CalledProcessError, c2))"


text \<open>
  \<open>_start_server\<close>, when its commands succeed: the port is forwarded and the server
  process runs. \<open>client_init\<close> is the state \<open>Client.__init__\<close> reaches with it.
\<close>

definition start_server :: "client \<Rightarrow> client" where
  "start_server c = c\<lparr>state_proc := Some True, forwarded := True\<rparr>"

definition client_init :: client where
  "client_init =
     start_server \<lparr>state_proc = None, state_resolution = None, state_device_name = None,
                   forwarded = False, commands = []\<rparr>"

text \<open>
  \<open>_init_decoder\<close>. \<open>create codec_name\<close> stands for
  \<open>av.CodecContext.create(codec_name, "r")\<close>: the new decoder, or the exception the library
  raises.
\<close>

definition init_decoder ::
  "(string \<Rightarrow> error + 'd) \<Rightarrow> client \<Rightarrow> stream
     \<Rightarrow> (error + ('d \<times> nat \<times> nat) \<times> stream) \<times> client" where
  "init_decoder create c sock =
     (case read_exact sock 1 of
        Inl e \<Rightarrow> (Inl e, c)
      | Inr (dummy, sock1) \<Rightarrow>
     (case read_exact sock1 64 of
        Inl e \<Rightarrow> (Inl e, c)
      | Inr (name_field, sock2) \<Rightarrow>
     (case utf8_decode (takeWhile (\<lambda>b. b \<noteq> 0) name_field) of
        Inl e \<Rightarrow> (Inl e, c)
      | Inr name \<Rightarrow>
     (let c1 = c\<lparr>state_device_name := Some name\<rparr> in
     (case read_exact sock2 4 of
        Inl e \<Rightarrow> (Inl e, c1)
      | Inr (codec_bytes, sock3) \<Rightarrow>
     (case unpack_I codec_bytes of
        Inl e \<Rightarrow> (Inl e, c1)
      | Inr raw_codec \<Rightarrow>
     (case read_exact sock3 8 of
        Inl e \<Rightarrow> (Inl e, c1)
      | Inr (resolution_bytes, sock4) \<Rightarrow>
     (case unpack_II resolution_bytes of
        Inl e \<Rightarrow> (Inl e, c1)
      | Inr (width, height) \<Rightarrow>
     (let c2 = c1\<lparr>state_resolution := Some (width, height)\<rparr> in
     (case CODECS raw_codec of
        None \<Rightarrow> (Inl (RuntimeError_unsupported_codec raw_codec), c2)
      | Some codec_name \<Rightarrow>
          if codec_name = [] then (Inl (RuntimeError_unsupported_codec raw_codec), c2)
          else
            (case create codec_name of
               Inl e \<Rightarrow> (Inl e, c2)
             | Inr decoder \<Rightarrow> (Inr ((decoder, width, height), sock4), c2))))))))))))"

text \<open>
  \<open>_video_loop\<close> on an established connection: \<open>_init_decoder\<close>, the loop with
  \<open>config_data = b""\<close>, and \<open>_stop_server\<close> in the \<open>finally\<close> clause, whose own exception
  replaces the one in flight.
\<close>

definition video_loop ::
  "(string \<Rightarrow> error + 'd) \<Rightarrow> ('d \<Rightarrow> video_packet \<Rightarrow> error + 'd) \<Rightarrow> client \<Rightarrow> stream
     \<Rightarrow> video_packet list \<times> error \<times> client" where
  "video_loop create decode c sock =
     (let (packets, e, c1) =
            (case init_decoder create c sock of
               (Inl e, c1) \<Rightarrow> ([], e, c1)
             | (Inr ((decoder, width, height), sock1), c1) \<Rightarrow>
                 (case video_loop_while decode decoder sock1 [] of
                    (packets, e) \<Rightarrow> (packets, e, c1)))
      in case stop_server c1 of
           (Inl e', c2) \<Rightarrow> (packets, e', c2)
         | (Inr u, c2) \<Rightarrow> (packets, e, c2))"

section \<open>The control channel (\<open>control.py\<close>)\<close>

definition CONTROL_MSG_TYPE_INJECT_KEYCODE :: int where
  "CONTROL_MSG_TYPE_INJECT_KEYCODE = 0"

definition CONTROL_MSG_TYPE_INJECT_TEXT :: int where
  "CONTROL_MSG_TYPE_INJECT_TEXT = 1"

definition CONTROL_MSG_TYPE_INJECT_TOUCH_EVENT :: int where
  "CONTROL_MSG_TYPE_INJECT_TOUCH_EVENT = 2"

definition CONTROL_MSG_TYPE_BACK_OR_SCREEN_ON :: int where
  "CONTROL_MSG_TYPE_BACK_OR_SCREEN_ON = 4"

definition CONTROL_MSG_TYPE_EXPAND_NOTIFICATION_PANEL :: int where
  "CONTROL_MSG_TYPE_EXPAND_NOTIFICATION_PANEL = 5"

definition CONTROL_MSG_TYPE_COLLAPSE_PANELS :: int where
  "CONTROL_MSG_TYPE_COLLAPSE_PANELS = 7"

text \<open>\<open>-1 & 0xFFFFFFFFFFFFFFFF\<close>, on Python's unbounded integers.\<close>

definition SC_POINTER_ID_MOUSE :: int where
  "SC_POINTER_ID_MOUSE = (- 1) AND 0xFFFFFFFFFFFFFFFF"

text \<open>\<open>str.encode("utf-8")\<close>: it raises on a surrogate code point.\<close>

definition utf8_encode_char :: "nat \<Rightarrow> error + bytes" where
  "utf8_encode_char cp =
     (if cp < 0x80 then Inr [of_nat cp]
      else if cp < 0x800 then Inr [of_nat (0xC0 + cp div 64), of_nat (0x80 + cp mod 64)]
      else if 0xD800 \<le> cp \<and> cp \<le> 0xDFFF then Inl UnicodeEncodeError
      else if cp < 0x10000 then
        Inr [of_nat (0xE0 + cp div 4096), of_nat (0x80 + cp div 64 mod 64),
             of_nat (0x80 + cp mod 64)]
      else
        Inr [of_nat (0xF0 + cp div 262144), of_nat (0x80 + cp div 4096 mod 64),
             of_nat (0x80 + cp div 64 mod 64), of_nat (0x80 + cp mod 64)])"

fun utf8_encode :: "nat list \<Rightarrow> error + bytes" where
  "utf8_encode [] = Inr []"
| "utf8_encode (cp # cps) =
     (case utf8_encode_char cp of
        Inl e \<Rightarrow> Inl e
      | Inr b \<Rightarrow> (case utf8_encode cps of Inl e \<Rightarrow> Inl e | Inr bs \<Rightarrow> Inr (b @ bs)))"

text \<open>
  The \<open>Control\<close> object. \<open>sock\<close> is the inbound side of the socket, \<open>None\<close> once
  \<open>stop\<close> has released it; \<open>effects\<close> lists the calls made on the socket and the thread
  that act on the outside (\<open>shutdown\<close>, \<open>close\<close>, \<open>sendall\<close> with its bytes, \<open>join\<close>),
  oldest first. The messages printed by the sending helpers are not modelled.
\<close>

datatype thread = Device_loop_thread

datatype effect = Shutdown | Close | Sendall bytes | Join

record control =
  sock :: "stream option"
  thread :: "thread option"
  resolution :: "(int \<times> int) option"
  mouse_buttons :: int
  effects :: "effect list"

text \<open>\<open>Control.__init__\<close> and \<open>start\<close> (the thread it starts runs \<open>_device_loop\<close>).\<close>

definition control_init :: "stream \<Rightarrow> control" where
  "control_init conn =
     \<lparr>sock = Some conn, thread = None, resolution = None, mouse_buttons = 0, effects = []\<rparr>"

definition control_start :: "control \<Rightarrow> control" where
  "control_start c = c\<lparr>thread := Some Device_loop_thread\<rparr>"

definition sendall :: "control \<Rightarrow> bytes \<Rightarrow> control" where
  "sendall c msg = c\<lparr>effects := effects c @ [Sendall msg]\<rparr>"

text \<open>\<open>Control.stop\<close>; an exception of \<open>shutdown\<close> is caught and dropped.\<close>

definition control_stop :: "control \<Rightarrow> (error + unit) \<times> control" where
  "control_stop c =
     (let c1 = (case sock c of
                  None \<Rightarrow> c
                | Some s \<Rightarrow> c\<lparr>sock := None, effects := effects c @ [Shutdown, Close]\<rparr>);
          c2 = (case thread c1 of
                  None \<Rightarrow> c1
                | Some t \<Rightarrow> c1\<lparr>thread := None, effects := effects c1 @ [Join]\<rparr>)
      in (Inr (), c2))"

definition set_resolution :: "control \<Rightarrow> int \<times> int \<Rightarrow> control" where
  "set_resolution c res = c\<lparr>resolution := Some res\<rparr>"

definition send_text :: "control \<Rightarrow> nat list \<Rightarrow> (error + unit) \<times> control" where
  "send_text c text =
     (if sock c = None then (Inr (), c)
      else
        (case utf8_encode text of
           Inl e \<Rightarrow> (Inl e, c)
         | Inr payload' \<Rightarrow>
             (case struct_pack [Fmt_B, Fmt_I]
                     [CONTROL_MSG_TYPE_INJECT_TEXT, int (length payload')] of
                Inl e \<Rightarrow> (Inl e, c)
              | Inr hdr \<Rightarrow> (Inr (), sendall c (hdr @ payload')))))"

definition inject_keycode :: "control \<Rightarrow> int \<Rightarrow> int \<Rightarrow> int \<Rightarrow> int \<Rightarrow> (error + unit) \<times> control" where
  "inject_keycode c keycode action repeat meta =
     (if sock c = None then (Inr (), c)
      else
        (case struct_pack [Fmt_B, Fmt_B, Fmt_I, Fmt_I, Fmt_I]
                [CONTROL_MSG_TYPE_INJECT_KEYCODE, action, keycode, repeat, meta] of
           Inl e \<Rightarrow> (Inl e, c)
         | Inr msg \<Rightarrow> (Inr (), sendall c msg)))"

text \<open>
  The pressure of \<open>inject_touch\<close>, its lines
  \<^verbatim>\<open>p = int(max(0.0, min(1.0, pressure)) * 0x10000)\<close> and
  \<^verbatim>\<open>if p > 0xFFFF: p = 0xFFFF\<close>. A finite float is a rational number; comparing it with
  0.0 and 1.0 and multiplying a float of [0, 1] by the power of two 0x10000 are exact in
  binary floating point, so the rational computation is the float one. \<open>int()\<close>
  truncates towards zero.
\<close>

definition py_int :: "rat \<Rightarrow> int" where
  "py_int r = (if 0 \<le> r then \<lfloor>r\<rfloor> else \<lceil>r\<rceil>)"

definition inject_touch_pressure :: "rat \<Rightarrow> int" where
  "inject_touch_pressure pressure =
     (let p = py_int (max 0 (min 1 pressure) * 0x10000)
      in if p > 0xFFFF then 0xFFFF else p)"

text \<open>
  The encoding as the specification words it, for comparison: round to the nearest integer
  where the source truncates. \<open>round\<close> rounds halves up and Python's \<open>round\<close> rounds
  them to even; the two agree away from the halves.
\<close>

definition spec_pressure_encoding :: "rat \<Rightarrow> int" where
  "spec_pressure_encoding p = min (round (max 0 (min 1 p) * 65536)) 65535"

definition inject_touch ::
  "control \<Rightarrow> int \<Rightarrow> int \<Rightarrow> int \<Rightarrow> rat \<Rightarrow> int \<Rightarrow> int \<Rightarrow> (error + unit) \<times> control" where
  "inject_touch c action x y pressure action_button buttons =
     (if sock c = None \<or> resolution c = None then (Inr (), c)
      else
        (case resolution c of
           Some (width, height) \<Rightarrow>
             (let p = inject_touch_pressure pressure in
              case struct_pack
                     [Fmt_B, Fmt_B, Fmt_Q, Fmt_i, Fmt_i, Fmt_H, Fmt_H, Fmt_H, Fmt_I, Fmt_I]
                     [CONTROL_MSG_TYPE_INJECT_TOUCH_EVENT, action, SC_POINTER_ID_MOUSE, x, y,
                      width, height, p, action_button, buttons] of
                Inl e \<Rightarrow> (Inl e, c)
              | Inr msg \<Rightarrow> (Inr (), sendall c msg))
         | None \<Rightarrow> (Inr (), c)))"

text \<open>
  The InjectTouch layout of the specification's table, for comparison with what
  \<open>inject_touch\<close> packs: tag (1 byte), action (1), pointer id (8, all bits set), x and y
  (4 each, signed: two's complement), screen width and height (2 each), pressure (2),
  action button (4), buttons (4), all big-endian.
\<close>

definition spec_inject_touch_layout ::
  "int \<Rightarrow> int \<Rightarrow> int \<Rightarrow> int \<Rightarrow> int \<Rightarrow> int \<Rightarrow> int \<Rightarrow> int \<Rightarrow> int \<Rightarrow> bytes" where
  "spec_inject_touch_layout tag action x y width height p action_button buttons =
     to_be 1 (nat tag) @ to_be 1 (nat action)
     @ [0xFF, 0xFF, 0xFF, 0xFF, 0xFF, 0xFF, 0xFF, 0xFF]
     @ to_be 4 (nat (x mod 2 ^ 32)) @ to_be 4 (nat (y mod 2 ^ 32))
     @ to_be 2 (nat width) @ to_be 2 (nat height) @ to_be 2 (nat p)
     @ to_be 4 (nat action_button) @ to_be 4 (nat buttons)"

definition back_or_screen_on :: "control \<Rightarrow> int \<Rightarrow> (error + unit) \<times> control" where
  "back_or_screen_on c action =
     (if sock c = None then (Inr (), c)
      else
        (case struct_pack [Fmt_B, Fmt_B] [CONTROL_MSG_TYPE_BACK_OR_SCREEN_ON, action] of
           Inl e \<Rightarrow> (Inl e, c)
         | Inr msg \<Rightarrow> (Inr (), sendall c msg)))"

definition expand_notification_panel :: "control \<Rightarrow> (error + unit) \<times> control" where
  "expand_notification_panel c =
     (if sock c \<noteq> None then
        (case struct_pack [Fmt_B] [CONTROL_MSG_TYPE_EXPAND_NOTIFICATION_PANEL] of
           Inl e \<Rightarrow> (Inl e, c)
         | Inr msg \<Rightarrow> (Inr (), sendall c msg))
      else (Inr (), c))"

definition collapse_panels :: "control \<Rightarrow> (error + unit) \<times> control" where
  "collapse_panels c =
     (if sock c \<noteq> None then
        (case struct_pack [Fmt_B] [CONTROL_MSG_TYPE_COLLAPSE_PANELS] of
           Inl e \<Rightarrow> (Inl e, c)
         | Inr msg \<Rightarrow> (Inr (), sendall c msg))
      else (Inr (), c))"

text \<open>
  What \<open>_device_loop\<close> prints: the type of every message, the text of a clipboard
  message, and the id and size of a UHID output message.
\<close>

datatype printed =
    Device_message_type nat
  | Device_clipboard "nat list"
  | UHID_output nat nat

text \<open>The lines printed before the rest of the loop runs.\<close>

definition printing :: "printed list \<Rightarrow> printed list \<times> stream \<times> (error + unit) \<Rightarrow> printed list \<times> stream \<times> (error + unit)" where
  "printing out r = (case r of (out', conn, res) \<Rightarrow> (out @ out', conn, res))"

text \<open>
  The \<open>while True\<close> loop of \<open>_device_loop\<close>, on the inbound side of the socket: what
  it prints, what it leaves unread, and how it ends (\<open>Inr ()\<close> for a \<open>break\<close>, \<open>Inl\<close>
  for an exception). \<open>recv\<close> is called directly here, so a read may return fewer
  bytes than asked for.
\<close>

function device_loop_while :: "stream \<Rightarrow> printed list \<times> stream \<times> (error + unit)" where
  "device_loop_while conn =
     (case recv 1 conn of
        (msg_type_raw, conn1) \<Rightarrow>
          (case msg_type_raw of
             [] \<Rightarrow> ([], conn1, Inr ())
           | b # bs \<Rightarrow>
               (let msg_type = unat b in
                printing [Device_message_type msg_type]
                  (if msg_type = 0 then
                     (case recv 4 conn1 of
                        (length_bytes, conn2) \<Rightarrow>
                          if length_bytes = [] then ([], conn2, Inr ())
                          else
                            (case unpack_I length_bytes of
                               Inl e \<Rightarrow> ([], conn2, Inl e)
                             | Inr len \<Rightarrow>
                                 (case recv len conn2 of
                                    (raw, conn3) \<Rightarrow>
                                      (case utf8_decode raw of
                                         Inl e \<Rightarrow> ([], conn3, Inl e)
                                       | Inr text \<Rightarrow>
                                           printing [Device_clipboard text]
                                             (device_loop_while conn3)))))
                   else if msg_type = 1 then
                     (case recv 8 conn1 of (ack, conn2) \<Rightarrow> device_loop_while conn2)
                   else if msg_type = 2 then
                     (case recv 4 conn1 of
                        (hdr, conn2) \<Rightarrow>
                          if hdr = [] then ([], conn2, Inr ())
                          else
                            (case unpack_HH hdr of
                               Inl e \<Rightarrow> ([], conn2, Inl e)
                             | Inr (ident, size') \<Rightarrow>
                                 (case recv size' conn2 of
                                    (data, conn3) \<Rightarrow>
                                      printing [UHID_output ident size']
                                        (device_loop_while conn3))))
                   else device_loop_while conn1))))"
  by pat_completeness auto
termination
  apply (relation "measure pending")
      apply (auto dest!: recv_pending [OF sym])
  done

declare device_loop_while.simps [simp del]

text \<open>
  \<open>_device_loop\<close>: \<open>except Exception: pass\<close> drops whatever exception ends the loop,
  also the \<open>AttributeError\<close> of \<open>self.sock.recv\<close> when \<open>stop\<close> has set \<open>self.sock\<close> to
  \<open>None\<close>.
\<close>

definition device_loop :: "control \<Rightarrow> printed list \<times> control" where
  "device_loop c =
     (case sock c of
        None \<Rightarrow> ([], c)
      | Some conn \<Rightarrow>
          (case device_loop_while conn of
             (out, conn', r) \<Rightarrow> (out, c\<lparr>sock := Some conn'\<rparr>)))"

section \<open>Outbound commands and \<open>stop\<close>\<close>

lemma sock_control_stop: "sock (snd (control_stop c)) = None"
  by (simp add: control_stop_def Let_def split: option.splits)

text \<open>
  C6. \<open>inject_touch\<close> called while no resolution has been set (\<open>set_resolution\<close> not yet
  called, so \<open>self.resolution\<close> is \<open>None\<close>) returns without an exception and leaves the
  \<open>Control\<close> object as it was: nothing is sent on the socket.
\<close>

theorem inject_touch_without_resolution:
  assumes "resolution c = None"
  shows "inject_touch c action x y pressure action_button buttons = (Inr (), c)"
  using assms by (simp add: inject_touch_def)

theorem inject_touch_without_resolution_witness:
  "resolution (control_init [[1, 2, 3]]) = None \<and>
   inject_touch (control_init [[1, 2, 3]]) 0 540 960 1 1 1 = (Inr (), control_init [[1, 2, 3]]) \<and>
   effects (control_init [[1, 2, 3]]) = []"
  using inject_touch_without_resolution [of "control_init [[1, 2, 3]]" 0 540 960 1 1 1]
  by (simp add: control_init_def)

text \<open>
  C10. After \<open>Control.stop\<close> (which sets \<open>self.sock\<close> to \<open>None\<close>), each of the six sending
  helpers returns without an exception and leaves the \<open>Control\<close> object as it was: no
  \<open>sendall\<close> is made.
\<close>

theorem commands_after_stop_are_noops:
  "send_text (snd (control_stop c)) text = (Inr (), snd (control_stop c)) \<and>
   inject_keycode (snd (control_stop c)) keycode action repeat meta
     = (Inr (), snd (control_stop c)) \<and>
   inject_touch (snd (control_stop c)) action x y pressure action_button buttons
     = (Inr (), snd (control_stop c)) \<and>
   back_or_screen_on (snd (control_stop c)) action = (Inr (), snd (control_stop c)) \<and>
   expand_notification_panel (snd (control_stop c)) = (Inr (), snd (control_stop c)) \<and>
   collapse_panels (snd (control_stop c)) = (Inr (), snd (control_stop c))"
  by (simp add: sock_control_stop send_text_def inject_keycode_def inject_touch_def
      back_or_screen_on_def expand_notification_panel_def collapse_panels_def)



section \<open>The pressure of a touch event\<close>

lemma py_int_nonneg: "0 \<le> r \<Longrightarrow> py_int r = \<lfloor>r\<rfloor>"
  by (simp add: py_int_def)

lemma cap_is_min: "(if 0xFFFF < v then 0xFFFF else v) = min v (65535::int)"
  by (simp add: min_def)

text \<open>
  C2, as stated, fails: the source converts with \<open>int()\<close>, which truncates, and does not
  round. The pressure \<open>3 / 2^18\<close> (a float of [0, 2]) scales to 0.75, which the source
  encodes as 0 and rounding to nearest encodes as 1.
\<close>

theorem pressure_round_counterexample:
  "(0::rat) \<le> 3 / 262144 \<and> (3::rat) / 262144 \<le> 2 \<and>
   inject_touch_pressure (3 / 262144) = 0 \<and>
   spec_pressure_encoding (3 / 262144) = 1"
  by (simp add: inject_touch_pressure_def py_int_def spec_pressure_encoding_def round_def
      floor_eq_iff)

text \<open>
  C2, amended. For every pressure \<open>p\<close> the 16-bit wire value is
  \<open>min(floor(clamp(p, 0, 1) * 65536), 65535)\<close>, a value of [0, 65535]; \<open>p = 1.0\<close> encodes
  to 65535, \<open>p = 0.5\<close> to 32768 and \<open>p = -1\<close> to 0.
\<close>

theorem pressure_encoding_truncates:
  "inject_touch_pressure p = min \<lfloor>max 0 (min 1 p) * 65536\<rfloor> 65535 \<and>
   0 \<le> inject_touch_pressure p \<and> inject_touch_pressure p \<le> 65535 \<and>
   inject_touch_pressure 1 = 65535 \<and>
   inject_touch_pressure (1 / 2) = 32768 \<and>
   inject_touch_pressure (- 1) = 0"
proof -
  have nn: "0 \<le> max 0 (min 1 p) * 0x10000" by simp
  have eq: "inject_touch_pressure p = min \<lfloor>max 0 (min 1 p) * 65536\<rfloor> 65535"
    unfolding inject_touch_pressure_def py_int_nonneg [OF nn] Let_def cap_is_min ..
  have fl: "0 \<le> \<lfloor>max 0 (min 1 p) * 65536\<rfloor>" using nn by simp
  have ex: "inject_touch_pressure 1 = 65535" "inject_touch_pressure (1 / 2) = 32768"
    "inject_touch_pressure (- 1) = 0"
    by (simp_all add: inject_touch_pressure_def py_int_def)
  from fl have "0 \<le> min \<lfloor>max 0 (min 1 p) * 65536\<rfloor> 65535"
    "min \<lfloor>max 0 (min 1 p) * 65536\<rfloor> 65535 \<le> 65535" by simp_all
  with eq ex show ?thesis by (simp only: simp_thms)
qed

section \<open>The video demuxer\<close>

lemma length_to_be [simp]: "length (to_be k v) = k"
  by (induction k arbitrary: v) auto

lemma from_be_snoc: "from_be (bs @ [b]) = 256 * from_be bs + unat b"
  by (simp add: from_be_def)

lemma from_be_to_be: "from_be (to_be k v) = v mod 256 ^ k"
proof (induction k arbitrary: v)
  case 0
  show ?case by (simp add: from_be_def)
next
  case (Suc k)
  have "unat (of_nat (v mod 256) :: byte) = v mod 256"
    by (simp add: unat_of_nat)
  then have "from_be (to_be (Suc k) v) = 256 * (v div 256 mod 256 ^ k) + v mod 256"
    by (simp add: from_be_snoc Suc)
  also have "\<dots> = v mod 256 ^ Suc k"
    by (simp add: mod_mult2_eq)
  finally show ?case .
qed

lemma to_be_1: "to_be 1 v = [of_nat (v mod 256)]"
  by simp

lemma to_be_2: "to_be 2 v = [of_nat (v div 256 mod 256), of_nat (v mod 256)]"
proof -
  have e: "(2::nat) = Suc (Suc 0)" by simp
  show ?thesis unfolding e by simp
qed

lemma to_be_4:
  "to_be 4 v =
     [of_nat (v div 256 div 256 div 256 mod 256), of_nat (v div 256 div 256 mod 256),
      of_nat (v div 256 mod 256), of_nat (v mod 256)]"
proof -
  have e: "(4::nat) = Suc (Suc (Suc (Suc 0)))" by simp
  show ?thesis unfolding e by simp
qed

lemma to_be_8:
  "to_be 8 v = to_be 4 (v div 256 div 256 div 256 div 256) @ to_be 4 v"
proof -
  have e: "(8::nat) = Suc (Suc (Suc (Suc (Suc (Suc (Suc (Suc 0)))))))" by simp
  show ?thesis unfolding e to_be_4 by simp
qed

lemma flag_config_iff: "w AND FLAG_CONFIG \<noteq> 0 \<longleftrightarrow> bit w 63"
  by (simp only: FLAG_CONFIG_def push_bit_of_1 and_exp_eq_0_iff_not_bit not_not)

lemma flag_key_frame_iff: "w AND FLAG_KEY_FRAME \<noteq> 0 \<longleftrightarrow> bit w 62"
  by (simp only: FLAG_KEY_FRAME_def push_bit_of_1 and_exp_eq_0_iff_not_bit not_not)

lemma pts_mask_mod: "w AND PTS_MASK = w mod 2 ^ 62"
proof -
  have "PTS_MASK = mask 62"
    by (simp only: PTS_MASK_def FLAG_KEY_FRAME_def push_bit_of_1 mask_eq_exp_minus_1)
  then have "w AND PTS_MASK = take_bit 62 w"
    by (simp only: take_bit_eq_mask)
  then show ?thesis
    by (simp only: take_bit_eq_mod)
qed

lemma read_exact_cases:
  obtains (eof) "length (concat s) < n" and "read_exact s n = Inl EOFError"
  | (ok) s' where "n \<le> length (concat s)"
      and "read_exact s n = Inr (take n (concat s), s')"
      and "concat s' = drop n (concat s)"
proof (cases "n \<le> length (concat s)")
  case True
  then show ?thesis using read_exact_enough [of n s] ok by blast
next
  case False
  then show ?thesis using read_exact_short [of s n] eof by simp
qed


lemma unpack_QI_header:
  "length h = 12 \<Longrightarrow> unpack_QI h = Inr (from_be (take 8 h), from_be (drop 8 h))"
  by (simp add: unpack_QI_def)

lemma video_loop_while_eof:
  assumes "length (concat s) < 12"
  shows "video_loop_while dec d s cfg = ([], EOFError)"
  using read_exact_short [of s 12] assms
  by (simp add: video_loop_while.simps [of dec d s cfg] HEADER_SIZE_def)

lemma video_loop_while_short_payload:
  assumes cat: "concat s = to_be 8 w @ to_be 4 n @ rest"
    and w: "w < 2 ^ 64" and n: "n < 2 ^ 32" and short: "length rest < n"
  shows "video_loop_while dec d s cfg = ([], EOFError)"
proof -
  define h where "h = to_be 8 w @ to_be 4 n"
  have lh: "length h = 12" by (simp add: h_def)
  have cat': "concat s = h @ rest" by (simp add: cat h_def)
  from cat' lh obtain t1 where t1: "read_exact s 12 = Inr (h, t1)" "concat t1 = rest"
    using read_exact_enough [of 12 s] by (metis append_eq_conv_conj le_add1 length_append)
  have "from_be (take 8 h) = w" "from_be (drop 8 h) = n"
    using w n by (simp_all add: h_def from_be_to_be)
  then have up: "unpack_QI h = Inr (w, n)"
    using lh by (simp add: unpack_QI_header)
  have "read_exact t1 n = Inl EOFError"
    using read_exact_short [of t1 n] t1(2) short by simp
  then show ?thesis
    by (simp add: video_loop_while.simps [of dec d s cfg] HEADER_SIZE_def t1(1) up)
qed

lemma video_loop_while_concat:
  "concat s1 = concat s2 \<Longrightarrow> video_loop_while dec d s1 cfg = video_loop_while dec d s2 cfg"
proof (induction "pending s1" arbitrary: s1 s2 cfg d rule: less_induct)
  case less
  show ?case
  proof (cases s1 "12::nat" rule: read_exact_cases)
    case eof
    then show ?thesis
      using less.prems by (simp add: video_loop_while_eof)
  next
    case (ok t1)
    from ok less.prems obtain t2 where t2: "read_exact s2 12 = Inr (take 12 (concat s1), t2)"
      "concat t2 = concat t1"
      using read_exact_enough [of 12 s2] by metis
    define h where "h = take 12 (concat s1)"
    have lh: "length h = 12" using ok(1) by (simp add: h_def)
    define w where "w = from_be (take 8 h)"
    define n where "n = from_be (drop 8 h)"
    have up: "unpack_QI h = Inr (w, n)"
      using lh by (simp add: unpack_QI_header w_def n_def)
    show ?thesis
    proof (cases t1 n rule: read_exact_cases)
      case eof
      then have "read_exact t2 n = Inl EOFError"
        using t2(2) read_exact_short [of t2 n] by simp
      with eof ok t2 up show ?thesis
        by (simp add: video_loop_while.simps [of dec d s1 cfg]
            video_loop_while.simps [of dec d s2 cfg] HEADER_SIZE_def h_def [symmetric])
    next
      case (ok u1)
      note u1 = ok
      from u1 t2(2) obtain u2 where u2: "read_exact t2 n = Inr (take n (concat t1), u2)"
        "concat u2 = concat u1"
        using read_exact_enough [of n t2] by metis
      have "pending u1 < pending s1"
        using read_exact_pending [OF \<open>read_exact s1 12 = Inr (take 12 (concat s1), t1)\<close>]
          read_exact_pending [OF u1(2)] by simp
      then have IH: "video_loop_while dec d' u1 c = video_loop_while dec d' u2 c" for c d'
        using less.hyps [of u1 u2 d' c] u2(2) by simp
      show ?thesis
        using \<open>read_exact s1 12 = Inr (take 12 (concat s1), t1)\<close> t2(1) up u1(2) u2(1) IH
        by (simp add: video_loop_while.simps [of dec d s1 cfg]
            video_loop_while.simps [of dec d s2 cfg] HEADER_SIZE_def h_def [symmetric] Let_def
            split: sum.splits)
    qed
  qed
qed

lemma flag_config_zero: "w AND FLAG_CONFIG = 0 \<longleftrightarrow> \<not> bit w 63"
  using flag_config_iff [of w] by blast

lemma flag_config_pos: "0 < w AND FLAG_CONFIG \<longleftrightarrow> bit w 63"
  using flag_config_iff [of w] by simp

lemma flag_key_frame_pos: "0 < w AND FLAG_KEY_FRAME \<longleftrightarrow> bit w 62"
  using flag_key_frame_iff [of w] by simp

lemma video_loop_while_packet:
  assumes cat: "concat s = to_be 8 w @ to_be 4 (length p) @ p @ rest"
    and w: "w < 2 ^ 64" and p: "length p < 2 ^ 32"
  shows "video_loop_while dec d s cfg =
    (if bit w 63 then video_loop_while dec d [rest] p
     else
       (case dec d \<lparr>payload = cfg @ p, pts = w mod 2 ^ 62, is_keyframe = bit w 62\<rparr> of
          Inl e \<Rightarrow> ([\<lparr>payload = cfg @ p, pts = w mod 2 ^ 62, is_keyframe = bit w 62\<rparr>], e)
        | Inr d' \<Rightarrow>
            (case video_loop_while dec d' [rest] [] of
               (packets, e) \<Rightarrow>
                 (\<lparr>payload = cfg @ p, pts = w mod 2 ^ 62, is_keyframe = bit w 62\<rparr> # packets,
                  e))))"
proof -
  define h where "h = to_be 8 w @ to_be 4 (length p)"
  have lh: "length h = 12" by (simp add: h_def)
  have cat': "concat s = h @ p @ rest" by (simp add: cat h_def)
  from cat' lh obtain t1 where t1: "read_exact s 12 = Inr (h, t1)" "concat t1 = p @ rest"
    using read_exact_enough [of 12 s] by (metis append_eq_conv_conj le_add1 length_append)
  have "from_be (take 8 h) = w" "from_be (drop 8 h) = length p"
    using w p by (simp_all add: h_def from_be_to_be)
  then have up: "unpack_QI h = Inr (w, length p)"
    using lh by (simp add: unpack_QI_header)
  from t1(2) obtain u1 where u1: "read_exact t1 (length p) = Inr (p, u1)" "concat u1 = rest"
    using read_exact_enough [of "length p" t1] by (metis append_eq_conv_conj le_add1 length_append)
  have rest: "video_loop_while dec d' u1 c = video_loop_while dec d' [rest] c" for c d'
    by (rule video_loop_while_concat) (simp add: u1(2))
  show ?thesis
    by (simp add: video_loop_while.simps [of dec d s cfg] HEADER_SIZE_def t1(1) up u1(1) rest
        flag_config_zero flag_config_pos flag_key_frame_pos pts_mask_mod
        split: sum.splits)
qed

lemma video_loop_while_frame:
  assumes "concat s = packet_bytes w p @ rest" and "w < 2 ^ 64" and "length p < 2 ^ 32"
  shows "video_loop_while dec d s cfg =
    (if bit w 63 then video_loop_while dec d [rest] p
     else
       (case dec d \<lparr>payload = cfg @ p, pts = w mod 2 ^ 62, is_keyframe = bit w 62\<rparr> of
          Inl e \<Rightarrow> ([\<lparr>payload = cfg @ p, pts = w mod 2 ^ 62, is_keyframe = bit w 62\<rparr>], e)
        | Inr d' \<Rightarrow>
            (case video_loop_while dec d' [rest] [] of
               (packets, e) \<Rightarrow>
                 (\<lparr>payload = cfg @ p, pts = w mod 2 ^ 62, is_keyframe = bit w 62\<rparr> # packets,
                  e))))"
  using assms video_loop_while_packet [of s w p rest dec d cfg] by (simp add: packet_bytes_def)

lemma video_loop_while_closed: "video_loop_while dec d [[]] cfg = ([], EOFError)"
  by (simp add: video_loop_while_eof)

lemma video_loop_while_last:
  assumes "w < 2 ^ 64" and "\<not> bit w 63" and "length p < 2 ^ 32"
  shows "video_loop_while dec d [packet_bytes w p] cfg =
    ([\<lparr>payload = cfg @ p, pts = w mod 2 ^ 62, is_keyframe = bit w 62\<rparr>],
     case dec d \<lparr>payload = cfg @ p, pts = w mod 2 ^ 62, is_keyframe = bit w 62\<rparr> of
       Inl e \<Rightarrow> e | Inr d' \<Rightarrow> EOFError)"
  using assms video_loop_while_frame [of "[packet_bytes w p]" w p "[]" dec d cfg]
  by (simp add: video_loop_while_closed split: sum.splits)

text \<open>
  C1. On a stream that holds a config packet (bit 63 of its header word set) and then a
  non-config packet, in whatever segments the bytes arrive, whatever configuration was
  pending before and whatever the decoder does, the loop hands exactly one packet to the
  decoder: its payload is the config payload followed by the non-config payload, its
  \<open>pts\<close> is the low 62 bits of the non-config header word and its keyframe flag is bit 62
  of that word. The loop then ends with the decoder's exception, if it raised on that
  packet, and with the \<open>EOFError\<close> of the closed stream otherwise.
\<close>

theorem config_spliced_into_next_packet:
  assumes "concat s = packet_bytes w1 p1 @ packet_bytes w2 p2"
    and "w1 < 2 ^ 64" and "bit w1 63" and "length p1 < 2 ^ 32"
    and "w2 < 2 ^ 64" and "\<not> bit w2 63" and "length p2 < 2 ^ 32"
  shows "video_loop_while dec d s cfg =
    ([\<lparr>payload = p1 @ p2, pts = w2 mod 2 ^ 62, is_keyframe = bit w2 62\<rparr>],
     case dec d \<lparr>payload = p1 @ p2, pts = w2 mod 2 ^ 62, is_keyframe = bit w2 62\<rparr> of
       Inl e \<Rightarrow> e | Inr d' \<Rightarrow> EOFError)"
proof -
  have "video_loop_while dec d s cfg = video_loop_while dec d [packet_bytes w2 p2] p1"
    using assms video_loop_while_frame [of s w1 p1 "packet_bytes w2 p2" dec d cfg] by simp
  then show ?thesis
    using assms by (simp add: video_loop_while_last)
qed

theorem config_spliced_into_next_packet_witness:
  "concat [[0x80, 0, 0], [0, 0, 0, 0, 0x4D, 0, 0, 0, 2, 0x67], [0x42, 0x40, 0, 0, 0, 0, 0, 0x03, 0xE8,
      0, 0, 0, 3, 0x65, 0x88, 0x84]]
     = packet_bytes (2 ^ 63 + 77) [0x67, 0x42] @ packet_bytes (2 ^ 62 + 1000) [0x65, 0x88, 0x84] \<and>
   bit (2 ^ 63 + 77 :: nat) 63 \<and> \<not> bit (2 ^ 62 + 1000 :: nat) 63 \<and>
   video_loop_while (\<lambda>d p. if payload p = [] then Inl InvalidDataError else Inr (Suc d)) 0
      [[0x80, 0, 0], [0, 0, 0, 0, 0x4D, 0, 0, 0, 2, 0x67], [0x42, 0x40, 0, 0, 0, 0, 0,
      0x03, 0xE8, 0, 0, 0, 3, 0x65, 0x88, 0x84]] []
     = ([\<lparr>payload = [0x67, 0x42, 0x65, 0x88, 0x84], pts = 1000, is_keyframe = True\<rparr>], EOFError)"
  using config_spliced_into_next_packet [of
      "[[0x80, 0, 0], [0, 0, 0, 0, 0x4D, 0, 0, 0, 2, 0x67], [0x42, 0x40, 0, 0, 0, 0, 0, 0x03, 0xE8,
        0, 0, 0, 3, 0x65, 0x88, 0x84]]"
      "2 ^ 63 + 77" "[0x67, 0x42]" "2 ^ 62 + 1000" "[0x65, 0x88, 0x84]"
      "\<lambda>d p. if payload p = [] then Inl InvalidDataError else Inr (Suc d)" 0 "[]"]
  by (simp add: packet_bytes_def to_be_4 to_be_8 bit_iff_odd)

text \<open>
  C8. \<open>config_data\<close> is one byte string, so it holds at most one pending configuration.
  A config packet replaces it: after config packets A and B, the next packet carries B
  alone in front of its payload, not A. Splicing clears it: after a config packet B and
  two non-config packets, the first carries B and, when the decoder has taken the first,
  the second is handed over with only its own payload. With nothing pending, two
  consecutive non-config packets are handed over as two packets, each with its own
  payload, timestamp and keyframe flag, the second one when the decoder has taken the
  first. An exception of the decoder ends the loop at the packet it was raised on.
\<close>

theorem pending_config_single_entry:
  assumes "wa < 2 ^ 64" and "bit wa 63" and "length a < 2 ^ 32"
    and "wb < 2 ^ 64" and "bit wb 63" and "length b < 2 ^ 32"
    and "w1 < 2 ^ 64" and "\<not> bit w1 63" and "length p1 < 2 ^ 32"
    and "w2 < 2 ^ 64" and "\<not> bit w2 63" and "length p2 < 2 ^ 32"
    and "concat s_replace = packet_bytes wa a @ packet_bytes wb b @ packet_bytes w1 p1"
    and "concat s_clear = packet_bytes wb b @ packet_bytes w1 p1 @ packet_bytes w2 p2"
    and "concat s_plain = packet_bytes w1 p1 @ packet_bytes w2 p2"
  shows "video_loop_while dec d s_replace cfg =
      ([\<lparr>payload = b @ p1, pts = w1 mod 2 ^ 62, is_keyframe = bit w1 62\<rparr>],
       case dec d \<lparr>payload = b @ p1, pts = w1 mod 2 ^ 62, is_keyframe = bit w1 62\<rparr> of
         Inl e \<Rightarrow> e | Inr d1 \<Rightarrow> EOFError) \<and>
    video_loop_while dec d s_clear cfg =
      (case dec d \<lparr>payload = b @ p1, pts = w1 mod 2 ^ 62, is_keyframe = bit w1 62\<rparr> of
         Inl e \<Rightarrow> ([\<lparr>payload = b @ p1, pts = w1 mod 2 ^ 62, is_keyframe = bit w1 62\<rparr>], e)
       | Inr d1 \<Rightarrow>
           ([\<lparr>payload = b @ p1, pts = w1 mod 2 ^ 62, is_keyframe = bit w1 62\<rparr>,
             \<lparr>payload = p2, pts = w2 mod 2 ^ 62, is_keyframe = bit w2 62\<rparr>],
            case dec d1 \<lparr>payload = p2, pts = w2 mod 2 ^ 62, is_keyframe = bit w2 62\<rparr> of
              Inl e \<Rightarrow> e | Inr d2 \<Rightarrow> EOFError)) \<and>
    video_loop_while dec d s_plain [] =
      (case dec d \<lparr>payload = p1, pts = w1 mod 2 ^ 62, is_keyframe = bit w1 62\<rparr> of
         Inl e \<Rightarrow> ([\<lparr>payload = p1, pts = w1 mod 2 ^ 62, is_keyframe = bit w1 62\<rparr>], e)
       | Inr d1 \<Rightarrow>
           ([\<lparr>payload = p1, pts = w1 mod 2 ^ 62, is_keyframe = bit w1 62\<rparr>,
             \<lparr>payload = p2, pts = w2 mod 2 ^ 62, is_keyframe = bit w2 62\<rparr>],
            case dec d1 \<lparr>payload = p2, pts = w2 mod 2 ^ 62, is_keyframe = bit w2 62\<rparr> of
              Inl e \<Rightarrow> e | Inr d2 \<Rightarrow> EOFError))"
proof -
  have two: "video_loop_while dec d [packet_bytes w1 p1 @ packet_bytes w2 p2] c =
      (case dec d \<lparr>payload = c @ p1, pts = w1 mod 2 ^ 62, is_keyframe = bit w1 62\<rparr> of
         Inl e \<Rightarrow> ([\<lparr>payload = c @ p1, pts = w1 mod 2 ^ 62, is_keyframe = bit w1 62\<rparr>], e)
       | Inr d1 \<Rightarrow>
           ([\<lparr>payload = c @ p1, pts = w1 mod 2 ^ 62, is_keyframe = bit w1 62\<rparr>,
             \<lparr>payload = p2, pts = w2 mod 2 ^ 62, is_keyframe = bit w2 62\<rparr>],
            case dec d1 \<lparr>payload = p2, pts = w2 mod 2 ^ 62, is_keyframe = bit w2 62\<rparr> of
              Inl e \<Rightarrow> e | Inr d2 \<Rightarrow> EOFError))" for c
    using assms
      video_loop_while_frame [of "[packet_bytes w1 p1 @ packet_bytes w2 p2]" w1 p1
        "packet_bytes w2 p2" dec d c]
    by (simp add: video_loop_while_last split: sum.splits)
  have "video_loop_while dec d s_replace cfg =
      video_loop_while dec d [packet_bytes wb b @ packet_bytes w1 p1] a"
    using assms
      video_loop_while_frame [of s_replace wa a "packet_bytes wb b @ packet_bytes w1 p1" dec d cfg]
    by simp
  also have "\<dots> = video_loop_while dec d [packet_bytes w1 p1] b"
    using assms
      video_loop_while_frame [of "[packet_bytes wb b @ packet_bytes w1 p1]" wb b
        "packet_bytes w1 p1" dec d a]
    by simp
  finally have r: "video_loop_while dec d s_replace cfg =
      ([\<lparr>payload = b @ p1, pts = w1 mod 2 ^ 62, is_keyframe = bit w1 62\<rparr>],
       case dec d \<lparr>payload = b @ p1, pts = w1 mod 2 ^ 62, is_keyframe = bit w1 62\<rparr> of
         Inl e \<Rightarrow> e | Inr d1 \<Rightarrow> EOFError)"
    using assms by (simp add: video_loop_while_last)
  have "video_loop_while dec d s_clear cfg =
      video_loop_while dec d [packet_bytes w1 p1 @ packet_bytes w2 p2] b"
    using assms
      video_loop_while_frame [of s_clear wb b "packet_bytes w1 p1 @ packet_bytes w2 p2" dec d cfg]
    by simp
  then have c: "video_loop_while dec d s_clear cfg =
      (case dec d \<lparr>payload = b @ p1, pts = w1 mod 2 ^ 62, is_keyframe = bit w1 62\<rparr> of
         Inl e \<Rightarrow> ([\<lparr>payload = b @ p1, pts = w1 mod 2 ^ 62, is_keyframe = bit w1 62\<rparr>], e)
       | Inr d1 \<Rightarrow>
           ([\<lparr>payload = b @ p1, pts = w1 mod 2 ^ 62, is_keyframe = bit w1 62\<rparr>,
             \<lparr>payload = p2, pts = w2 mod 2 ^ 62, is_keyframe = bit w2 62\<rparr>],
            case dec d1 \<lparr>payload = p2, pts = w2 mod 2 ^ 62, is_keyframe = bit w2 62\<rparr> of
              Inl e \<Rightarrow> e | Inr d2 \<Rightarrow> EOFError))"
    by (simp only: two)
  have "video_loop_while dec d s_plain [] =
      video_loop_while dec d [packet_bytes w1 p1 @ packet_bytes w2 p2] []"
    by (rule video_loop_while_concat) (simp add: assms)
  then have p: "video_loop_while dec d s_plain [] =
      (case dec d \<lparr>payload = p1, pts = w1 mod 2 ^ 62, is_keyframe = bit w1 62\<rparr> of
         Inl e \<Rightarrow> ([\<lparr>payload = p1, pts = w1 mod 2 ^ 62, is_keyframe = bit w1 62\<rparr>], e)
       | Inr d1 \<Rightarrow>
           ([\<lparr>payload = p1, pts = w1 mod 2 ^ 62, is_keyframe = bit w1 62\<rparr>,
             \<lparr>payload = p2, pts = w2 mod 2 ^ 62, is_keyframe = bit w2 62\<rparr>],
            case dec d1 \<lparr>payload = p2, pts = w2 mod 2 ^ 62, is_keyframe = bit w2 62\<rparr> of
              Inl e \<Rightarrow> e | Inr d2 \<Rightarrow> EOFError))"
    using two [of "[]"] by (simp split: sum.splits)
  from r c p show ?thesis by (simp only: simp_thms)
qed

theorem pending_config_single_entry_witness:
  "bit (2 ^ 63 :: nat) 63 \<and> \<not> bit (2 ^ 62 + 5 :: nat) 63 \<and> \<not> bit (7 :: nat) 63 \<and>
   concat [[0x80, 0, 0, 0, 0, 0, 0, 0, 0, 0, 0, 1, 1], [0x80, 0, 0, 0, 0, 0, 0, 0, 0, 0,
          0, 2, 2, 3, 0x40, 0, 0, 0, 0, 0, 0, 5, 0, 0, 0, 1, 9]]
     = packet_bytes (2 ^ 63) [1] @ packet_bytes (2 ^ 63) [2, 3] @ packet_bytes (2 ^ 62 + 5) [9] \<and>
   video_loop_while (\<lambda>d p. if payload p = [] then Inl InvalidDataError else Inr (Suc d)) 0
       [[0x80, 0, 0, 0, 0, 0, 0, 0, 0, 0, 0, 1, 1], [0x80, 0, 0, 0, 0, 0, 0, 0, 0, 0, 0,
       2, 2, 3, 0x40, 0, 0, 0, 0, 0, 0, 5, 0, 0, 0, 1, 9]] [0xAA]
     = ([\<lparr>payload = [2, 3, 9], pts = 5, is_keyframe = True\<rparr>], EOFError) \<and>
   video_loop_while (\<lambda>d p. if payload p = [] then Inl InvalidDataError else Inr (Suc d)) 0
       [[0x80, 0, 0, 0, 0, 0, 0, 0, 0, 0, 0, 2, 2, 3, 0x40, 0, 0, 0, 0, 0, 0, 5, 0, 0,
       0, 1, 9, 0, 0, 0, 0, 0, 0, 0, 7, 0, 0, 0, 2, 8, 8]] [0xAA]
     = ([\<lparr>payload = [2, 3, 9], pts = 5, is_keyframe = True\<rparr>,
         \<lparr>payload = [8, 8], pts = 7, is_keyframe = False\<rparr>], EOFError) \<and>
   video_loop_while (\<lambda>d p. if payload p = [] then Inl InvalidDataError else Inr (Suc d)) 0
       [[0x40, 0, 0, 0, 0, 0, 0, 5, 0, 0, 0, 1, 9], [0, 0, 0, 0, 0, 0, 0, 7, 0, 0, 0, 2,
       8, 8]] []
     = ([\<lparr>payload = [9], pts = 5, is_keyframe = True\<rparr>,
         \<lparr>payload = [8, 8], pts = 7, is_keyframe = False\<rparr>], EOFError) \<and>
   video_loop_while (\<lambda>d p. Inl InvalidDataError :: error + nat) 0
       [[0x40, 0, 0, 0, 0, 0, 0, 5, 0, 0, 0, 1, 9], [0, 0, 0, 0, 0, 0, 0, 7, 0, 0, 0, 2,
       8, 8]] []
     = ([\<lparr>payload = [9], pts = 5, is_keyframe = True\<rparr>], InvalidDataError)"
  using pending_config_single_entry [of "2 ^ 63" "[1]" "2 ^ 63" "[2, 3]" "2 ^ 62 + 5" "[9]" 7 "[8, 8]"
      "[[0x80, 0, 0, 0, 0, 0, 0, 0, 0, 0, 0, 1, 1], [0x80, 0, 0, 0, 0, 0, 0, 0, 0, 0, 0,
       2, 2, 3, 0x40, 0, 0, 0, 0, 0, 0, 5, 0, 0, 0, 1, 9]]"
      "[[0x80, 0, 0, 0, 0, 0, 0, 0, 0, 0, 0, 2, 2, 3, 0x40, 0, 0, 0, 0, 0, 0, 5, 0, 0,
       0, 1, 9, 0, 0, 0, 0, 0, 0, 0, 7, 0, 0, 0, 2, 8, 8]]"
      "[[0x40, 0, 0, 0, 0, 0, 0, 5, 0, 0, 0, 1, 9], [0, 0, 0, 0, 0, 0, 0, 7, 0, 0, 0, 2,
       8, 8]]"
      "\<lambda>d p. if payload p = [] then Inl InvalidDataError else Inr (Suc d)" 0 "[0xAA]"]
    pending_config_single_entry [of "2 ^ 63" "[1]" "2 ^ 63" "[2, 3]" "2 ^ 62 + 5" "[9]" 7 "[8, 8]"
      "[[0x80, 0, 0, 0, 0, 0, 0, 0, 0, 0, 0, 1, 1], [0x80, 0, 0, 0, 0, 0, 0, 0, 0, 0, 0,
       2, 2, 3, 0x40, 0, 0, 0, 0, 0, 0, 5, 0, 0, 0, 1, 9]]"
      "[[0x80, 0, 0, 0, 0, 0, 0, 0, 0, 0, 0, 2, 2, 3, 0x40, 0, 0, 0, 0, 0, 0, 5, 0, 0,
       0, 1, 9, 0, 0, 0, 0, 0, 0, 0, 7, 0, 0, 0, 2, 8, 8]]"
      "[[0x40, 0, 0, 0, 0, 0, 0, 5, 0, 0, 0, 1, 9], [0, 0, 0, 0, 0, 0, 0, 7, 0, 0, 0, 2,
       8, 8]]"
      "\<lambda>d p. Inl InvalidDataError :: error + nat" 0 "[0xAA]"]
  by (simp add: packet_bytes_def to_be_4 to_be_8 bit_iff_odd)

text \<open>
  C3, as stated, fails: \<open>read_exact\<close> raises \<open>EOFError\<close> whenever \<open>recv\<close> returns no
  bytes, and \<open>_video_loop\<close> catches nothing. A peer that closes at a packet boundary (no
  byte of the next header), one that closes inside a header and one that closes inside a
  payload all end the loop with the same \<open>EOFError\<close>.
\<close>

theorem clean_close_raises_counterexample:
  "read_exact [] 12 = Inl EOFError \<and> read_exact [[0, 0, 0]] 12 = Inl EOFError \<and>
   video_loop_while (\<lambda>(d::unit) p. Inr d) () [] [] = ([], EOFError) \<and>
   video_loop_while (\<lambda>(d::unit) p. Inr d) () [[0, 0, 0]] [] = ([], EOFError) \<and>
   video_loop_while (\<lambda>(d::unit) p. Inr d) ()
     [[0, 0, 0, 0, 0, 0, 0, 7, 0, 0, 0, 2, 8]] [] = ([], EOFError)"
proof -
  have "video_loop_while (\<lambda>(d::unit) p. Inr d) ()
     [[0, 0, 0, 0, 0, 0, 0, 7, 0, 0, 0, 2, 8]] [] = ([], EOFError)"
    by (rule video_loop_while_short_payload [of _ 7 2 "[8]"]) (simp_all add: to_be_4 to_be_8)
  then show ?thesis
    by (simp add: read_exact_short video_loop_while_eof)
qed

text \<open>
  C3, amended. A fixed-length read of the demuxer that finds fewer bytes than it asks for
  before the peer closes, none at all or only part of them, raises \<open>EOFError\<close>. When that
  read is the read of a header (no byte of it, at a packet boundary, or some) or the read
  of a payload, the loop ends with that \<open>EOFError\<close>, whatever the decoder and the pending
  configuration are. A clean close and a truncation are not told apart.
\<close>

theorem short_read_raises_EOFError:
  assumes "length (concat s) < n"
    and "length (concat s_header) < HEADER_SIZE"
    and "concat s_payload = to_be 8 w @ to_be 4 m @ rest"
    and "w < 2 ^ 64" and "m < 2 ^ 32" and "length rest < m"
  shows "read_exact s n = Inl EOFError \<and>
    video_loop_while dec d s_header cfg = ([], EOFError) \<and>
    video_loop_while dec d s_payload cfg = ([], EOFError)"
  using assms
  by (simp add: read_exact_short video_loop_while_eof HEADER_SIZE_def
      video_loop_while_short_payload [of s_payload w m rest])

theorem short_read_raises_EOFError_witness:
  "length (concat ([] :: stream)) < HEADER_SIZE \<and> read_exact [] 12 = Inl EOFError \<and>
   video_loop_while (\<lambda>d p. if payload p = [] then Inl InvalidDataError else Inr (Suc d)) 0 [] [0xAA] = ([], EOFError) \<and>
   length (concat [[0, 0, 0 :: byte]]) < HEADER_SIZE \<and>
   video_loop_while (\<lambda>d p. if payload p = [] then Inl InvalidDataError else Inr (Suc d)) 0 [[0, 0, 0]] [0xAA] = ([], EOFError) \<and>
   concat [[0, 0, 0, 0, 0, 0, 0, 7, 0, 0, 0, 2, 8 :: byte]] = to_be 8 7 @ to_be 4 2 @ [8] \<and>
   video_loop_while (\<lambda>d p. if payload p = [] then Inl InvalidDataError else Inr (Suc d)) 0 [[0, 0, 0, 0, 0, 0, 0, 7, 0, 0, 0, 2, 8]] [0xAA] = ([], EOFError)"
  using short_read_raises_EOFError [of "[]" 12 "[]" "[[0, 0, 0, 0, 0, 0, 0, 7, 0, 0, 0, 2, 8]]"
      7 2 "[8]" "\<lambda>d p. if payload p = [] then Inl InvalidDataError else Inr (Suc d)" 0 "[0xAA]"]
    short_read_raises_EOFError [of "[]" 12 "[[0, 0, 0]]"
      "[[0, 0, 0, 0, 0, 0, 0, 7, 0, 0, 0, 2, 8]]"
      7 2 "[8]" "\<lambda>d p. if payload p = [] then Inl InvalidDataError else Inr (Suc d)" 0 "[0xAA]"]
  by (simp add: HEADER_SIZE_def to_be_4 to_be_8)

section \<open>The handshake\<close>

lemma read_exact_prefix:
  assumes "concat s = xs @ ys"
  obtains t where "read_exact s (length xs) = Inr (xs, t)" and "concat t = ys"
  using read_exact_enough [of "length xs" s] assms by (metis append_eq_conv_conj le_add1 length_append)

lemma utf8_decode_ascii:
  "list_all (\<lambda>b. unat b < 0x80) bs \<Longrightarrow> utf8_decode bs = Inr (map unat bs)"
  by (induction bs) (simp_all add: utf8_decode.simps utf8_width_def utf8_scalar_def)

lemma init_decoder_unsupported:
  assumes cat: "concat s = d # name @ to_be 4 codec @ res @ rest"
    and name: "length name = 64" and res: "length res = 8"
    and dec: "utf8_decode (takeWhile (\<lambda>b. b \<noteq> 0) name) = Inr nm"
    and codec: "codec < 2 ^ 32" "codec \<notin> {0x68323634, 0x68323635, 0x00617631}"
  shows "init_decoder create c s =
    (Inl (RuntimeError_unsupported_codec codec),
     c\<lparr>state_device_name := Some nm,
       state_resolution := Some (from_be (take 4 res), from_be (drop 4 res))\<rparr>)"
proof -
  from cat have "concat s = [d] @ (name @ to_be 4 codec @ res @ rest)" by simp
  then obtain t1 where t1: "read_exact s 1 = Inr ([d], t1)"
      "concat t1 = name @ (to_be 4 codec @ res @ rest)"
    using read_exact_prefix [of s "[d]"] by (metis One_nat_def append_assoc length_Cons list.size(3))
  from t1(2) name obtain t2 where t2: "read_exact t1 64 = Inr (name, t2)"
      "concat t2 = to_be 4 codec @ (res @ rest)"
    using read_exact_prefix [of t1 name] by (metis append_assoc)
  from t2(2) obtain t3 where t3: "read_exact t2 4 = Inr (to_be 4 codec, t3)"
      "concat t3 = res @ rest"
    using read_exact_prefix [of t2 "to_be 4 codec"] by (metis length_to_be)
  from t3(2) res obtain t4 where t4: "read_exact t3 8 = Inr (res, t4)" "concat t4 = rest"
    using read_exact_prefix [of t3 res] by metis
  have up: "unpack_I (to_be 4 codec) = Inr codec"
    using codec(1) by (simp add: unpack_I_def from_be_to_be)
  have upr: "unpack_II res = Inr (from_be (take 4 res), from_be (drop 4 res))"
    using res by (simp add: unpack_II_def)
  have tab: "CODECS codec = None"
    using codec(2) by (simp add: CODECS_def)
  have t1': "read_exact s (Suc 0) = Inr ([d], t1)"
    using t1(1) by simp
  show ?thesis
    by (simp add: init_decoder_def t1' t2(1) dec t3(1) up t4(1) upr tab)
qed

text \<open>
  C5. On a stream that holds a handshake (the reserved byte, a 64-byte name field whose
  name decodes, the 4-byte codec identifier, the 8 bytes of the resolution) whose codec
  identifier is not one of \<open>0x68323634\<close>, \<open>0x68323635\<close>, \<open>0x00617631\<close>, \<open>_init_decoder\<close>
  raises the unsupported-codec \<open>RuntimeError\<close> with that identifier, before it creates a
  decoder, and \<open>_video_loop\<close> hands no packet to a decoder.
\<close>

theorem unknown_codec_fails_handshake:
  assumes "concat s = d # name @ to_be 4 codec @ res @ rest"
    and "length name = 64" and "length res = 8"
    and "utf8_decode (takeWhile (\<lambda>b. b \<noteq> 0) name) = Inr nm"
    and "codec < 2 ^ 32" and "codec \<notin> {0x68323634, 0x68323635, 0x00617631}"
  shows "fst (init_decoder create c s) = Inl (RuntimeError_unsupported_codec codec) \<and>
    fst (video_loop create dec c s) = []"
  using init_decoder_unsupported [OF assms, of create c]
  by (simp add: video_loop_def split: prod.splits sum.splits)

theorem unknown_codec_fails_handshake_witness:
  "utf8_decode (takeWhile (\<lambda>b. b \<noteq> 0) ([0x4D, 0x79, 0x50, 0x68, 0x6F, 0x6E, 0x65] @ replicate 57 0))
     = Inr [77, 121, 80, 104, 111, 110, 101] \<and>
   (0xDEADBEEF :: nat) \<notin> {0x68323634, 0x68323635, 0x00617631} \<and>
   fst (init_decoder (\<lambda>codec_name. Inr (0 :: nat)) client_init
          [[0], [0x4D, 0x79, 0x50, 0x68, 0x6F, 0x6E, 0x65] @ replicate 57 0,
           [0xDE, 0xAD, 0xBE, 0xEF, 0, 0, 4, 0x38, 0, 0, 9, 0x60]])
     = Inl (RuntimeError_unsupported_codec 0xDEADBEEF) \<and>
   fst (video_loop (\<lambda>codec_name. Inr 0) (\<lambda>d p. Inr (Suc d)) client_init
          [[0], [0x4D, 0x79, 0x50, 0x68, 0x6F, 0x6E, 0x65] @ replicate 57 0,
           [0xDE, 0xAD, 0xBE, 0xEF, 0, 0, 4, 0x38, 0, 0, 9, 0x60]])
     = []"
proof -
  have dec: "utf8_decode (takeWhile (\<lambda>b. b \<noteq> 0)
        ([0x4D, 0x79, 0x50, 0x68, 0x6F, 0x6E, 0x65] @ replicate 57 0))
      = Inr [77, 121, 80, 104, 111, 110, 101]"
    by (simp add: takeWhile_replicate utf8_decode_ascii)
  show ?thesis
    using dec unknown_codec_fails_handshake [of
        "[[0], [0x4D, 0x79, 0x50, 0x68, 0x6F, 0x6E, 0x65] @ replicate 57 0,
          [0xDE, 0xAD, 0xBE, 0xEF, 0, 0, 4, 0x38, 0, 0, 9, 0x60]]"
        0 "[0x4D, 0x79, 0x50, 0x68, 0x6F, 0x6E, 0x65] @ replicate 57 0" "0xDEADBEEF"
        "[0, 0, 4, 0x38, 0, 0, 9, 0x60]" "[]" "[77, 121, 80, 104, 111, 110, 101]"
        "\<lambda>codec_name. Inr 0" client_init "\<lambda>d p. Inr (Suc d)"]
    by (simp add: to_be_4)
qed

section \<open>The touch message\<close>

lemma SC_POINTER_ID_MOUSE_value: "SC_POINTER_ID_MOUSE = 2 ^ 64 - 1"
  by (simp add: SC_POINTER_ID_MOUSE_def)

lemma to_be_8_ones:
  "to_be 8 (nat (2 ^ 64 - 1)) = [0xFF, 0xFF, 0xFF, 0xFF, 0xFF, 0xFF, 0xFF, 0xFF]"
  by (simp add: to_be_8 to_be_4)

lemma pack_field_bytes:
  "pack_field f v = Inr b \<Longrightarrow>
   b = (if f = Fmt_i then to_be 4 (nat (v mod 2 ^ 32)) else to_be (fmt_size f) (nat v))"
  by (cases f) (auto split: if_splits)

lemma struct_pack_bytes:
  "struct_pack fs vs = Inr m \<Longrightarrow>
   m = concat (map (\<lambda>(f, v). if f = Fmt_i then to_be 4 (nat (v mod 2 ^ 32))
                               else to_be (fmt_size f) (nat v)) (zip fs vs))"
proof (induction fs vs arbitrary: m rule: struct_pack.induct)
  case 1
  then show ?case by simp
next
  case (2 f fs v vs)
  from "2.prems" obtain b bs where b: "pack_field f v = Inr b"
    and bs: "struct_pack fs vs = Inr bs" and m: "m = b @ bs"
    by (auto split: sum.splits)
  from "2.IH" [OF b bs] pack_field_bytes [OF b] m show ?case by simp
qed simp_all

text \<open>
  C9. Whenever \<open>inject_touch\<close> sends a message (socket and resolution present,
  \<open>struct.pack\<close> accepts the values), the message is the big-endian layout tag, action,
  pointer id, x, y, screen width, screen height, pressure, action button, buttons of
  1 + 1 + 8 + 4 + 4 + 2 + 2 + 2 + 4 + 4 = 32 bytes, with tag 2, x and y in two's
  complement, and the pointer id \<open>SC_POINTER_ID_MOUSE = 2^64 - 1\<close>: eight bytes \<open>0xFF\<close>.
\<close>

theorem inject_touch_message_layout:
  assumes "sock c = Some conn" and "resolution c = Some (width, height)"
    and "inject_touch c action x y pressure action_button buttons = (Inr (), c')"
  shows "c' = sendall c (spec_inject_touch_layout 2 action x y width height
               (inject_touch_pressure pressure) action_button buttons) \<and>
    length (spec_inject_touch_layout 2 action x y width height
               (inject_touch_pressure pressure) action_button buttons) = 32 \<and>
    SC_POINTER_ID_MOUSE = 2 ^ 64 - 1"
proof -
  from assms obtain msg where
    pk: "struct_pack [Fmt_B, Fmt_B, Fmt_Q, Fmt_i, Fmt_i, Fmt_H, Fmt_H, Fmt_H, Fmt_I, Fmt_I]
           [CONTROL_MSG_TYPE_INJECT_TOUCH_EVENT, action, SC_POINTER_ID_MOUSE, x, y,
            width, height, inject_touch_pressure pressure, action_button, buttons] = Inr msg"
    and c': "c' = sendall c msg"
    by (auto simp: inject_touch_def Let_def split: sum.splits)
  have "msg = spec_inject_touch_layout 2 action x y width height
               (inject_touch_pressure pressure) action_button buttons"
    using struct_pack_bytes [OF pk] to_be_8_ones
    by (simp add: spec_inject_touch_layout_def CONTROL_MSG_TYPE_INJECT_TOUCH_EVENT_def
        SC_POINTER_ID_MOUSE_value)
  with c' show ?thesis
    by (simp add: spec_inject_touch_layout_def SC_POINTER_ID_MOUSE_value)
qed

theorem inject_touch_message_layout_witness:
  "sock (set_resolution (control_init []) (1080, 2400)) = Some [] \<and>
   resolution (set_resolution (control_init []) (1080, 2400)) = Some (1080, 2400) \<and>
   inject_touch (set_resolution (control_init []) (1080, 2400)) 0 540 (- 2) (1 / 2) 1 1
     = (Inr (), sendall (set_resolution (control_init []) (1080, 2400))
          (spec_inject_touch_layout 2 0 540 (- 2) 1080 2400 32768 1 1)) \<and>
   spec_inject_touch_layout 2 0 540 (- 2) 1080 2400 32768 1 1
     = [2, 0, 0xFF, 0xFF, 0xFF, 0xFF, 0xFF, 0xFF, 0xFF, 0xFF, 0, 0, 0x02, 0x1C,
        0xFF, 0xFF, 0xFF, 0xFE, 0x04, 0x38, 0x09, 0x60, 0x80, 0x00, 0, 0, 0, 1, 0, 0, 0, 1]"
proof -
  have p: "inject_touch_pressure (1 / 2) = 32768"
    by (simp add: inject_touch_pressure_def py_int_def)
  have lay: "spec_inject_touch_layout 2 0 540 (- 2) 1080 2400 32768 1 1
     = [2, 0, 0xFF, 0xFF, 0xFF, 0xFF, 0xFF, 0xFF, 0xFF, 0xFF, 0, 0, 0x02, 0x1C,
        0xFF, 0xFF, 0xFF, 0xFE, 0x04, 0x38, 0x09, 0x60, 0x80, 0x00, 0, 0, 0, 1, 0, 0, 0, 1]"
    by (simp add: spec_inject_touch_layout_def to_be_4 to_be_1 to_be_2)
  have run: "inject_touch (set_resolution (control_init []) (1080, 2400)) 0 540 (- 2) (1 / 2) 1 1
     = (Inr (), sendall (set_resolution (control_init []) (1080, 2400))
          [2, 0, 0xFF, 0xFF, 0xFF, 0xFF, 0xFF, 0xFF, 0xFF, 0xFF, 0, 0, 0x02, 0x1C,
        0xFF, 0xFF, 0xFF, 0xFE, 0x04, 0x38, 0x09, 0x60, 0x80, 0x00, 0, 0, 0, 1, 0, 0, 0, 1])"
    by (simp add: inject_touch_def set_resolution_def control_init_def p
        CONTROL_MSG_TYPE_INJECT_TOUCH_EVENT_def SC_POINTER_ID_MOUSE_value to_be_8
        to_be_4 to_be_1 to_be_2)
  show ?thesis
    using inject_touch_message_layout [OF _ _ run, of "[]" 1080 2400] lay run
    by (simp add: set_resolution_def control_init_def p)
qed

section \<open>Inbound control messages\<close>

lemma recv_one:
  assumes "concat conn = b # rest"
  shows "fst (recv 1 conn) = [b]" and "concat (snd (recv 1 conn)) = rest"
proof -
  have ne: "fst (recv 1 conn) \<noteq> []"
    using recv_empty_iff [of 1 conn] assms by simp
  moreover have "length (fst (recv 1 conn)) \<le> 1" by (rule recv_length)
  ultimately obtain x where x: "fst (recv 1 conn) = [x]"
    by (cases "fst (recv 1 conn)") auto
  with recv_concat [of 1 conn] assms show "fst (recv 1 conn) = [b]"
    and "concat (snd (recv 1 conn)) = rest"
    by simp_all
qed

text \<open>
  C4, amended. When the next event tag is not 0, 1 or 2, \<open>_device_loop\<close> prints it, reads
  nothing more of that message and goes on: the loop continues on the stream that follows
  the tag byte, whose first byte it reads as the next tag. It does not stop and raises
  nothing.
\<close>

theorem unknown_tag_is_skipped:
  assumes "concat conn = b # rest" and "unat b \<notin> {0, 1, 2}"
  shows "device_loop_while conn =
      printing [Device_message_type (unat b)] (device_loop_while (snd (recv 1 conn))) \<and>
    concat (snd (recv 1 conn)) = rest"
proof -
  obtain conn1 where c1: "snd (recv 1 conn) = conn1" by simp
  have r: "recv (Suc 0) conn = ([b], conn1)"
    using recv_one(1) [OF assms(1)] c1 by (simp add: prod_eq_iff)
  have "device_loop_while conn =
      printing [Device_message_type (unat b)] (device_loop_while conn1)"
    using assms(2) by (subst device_loop_while.simps) (simp add: r Let_def)
  with recv_one(2) [OF assms(1)] c1 show ?thesis by simp
qed

theorem unknown_tag_is_skipped_witness:
  "concat [[7, 2, 0, 5], [0, 0 :: byte]] = 7 # [2, 0, 5, 0, 0] \<and>
   unat (7 :: byte) \<notin> {0, 1, 2} \<and>
   device_loop_while [[7, 2, 0, 5], [0, 0]] =
     printing [Device_message_type 7] (device_loop_while [[2, 0, 5], [0, 0]])"
  using unknown_tag_is_skipped [of "[[7, 2, 0, 5], [0, 0]]" 7 "[2, 0, 5, 0, 0]"]
  by simp

text \<open>
  C4, as stated, fails: the \<open>if\<close>/\<open>elif\<close> chain of \<open>_device_loop\<close> has no branch for
  another tag, and \<open>except Exception: pass\<close> lets no error out. On the stream 7, 2, 0, 5,
  0, 0 the loop prints the unknown tag 7, reads on, takes the next byte 2 as a UHID output
  message (id 5, size 0), and ends at the closed stream without an exception.
\<close>

theorem unknown_tag_counterexample:
  "device_loop_while [[7, 2, 0, 5, 0, 0]] =
     ([Device_message_type 7, Device_message_type 2, UHID_output 5 0], [], Inr ()) \<and>
   device_loop (control_init [[7, 2, 0, 5, 0, 0]]) =
     ([Device_message_type 7, Device_message_type 2, UHID_output 5 0], control_init [])"
proof -
  have 1: "device_loop_while [] = ([], [], Inr ())"
    by (subst device_loop_while.simps) simp
  have 2: "device_loop_while [[2, 0, 5, 0, 0]] =
      ([Device_message_type 2, UHID_output 5 0], [], Inr ())"
    by (subst device_loop_while.simps) (simp add: 1 unpack_HH_def from_be_def printing_def)
  have 3: "device_loop_while [[7, 2, 0, 5, 0, 0]] =
     ([Device_message_type 7, Device_message_type 2, UHID_output 5 0], [], Inr ())"
    by (subst device_loop_while.simps) (simp add: 2 printing_def)
  then show ?thesis
    by (simp add: device_loop_def control_init_def)
qed

end
